theory Spec2Isabelle
  imports Main "HOL-Library.Word"
begin

unbundle bit_operations_syntax

section \<open>The scripting core of the emulator (src/core/scripting.c)\<close>

text \<open>
  The C types of the source: \<open>uint32_t\<close>, \<open>int\<close> and \<open>int32_t\<close> are 32-bit words,
  \<open>uint16_t\<close> and \<open>uint8_t\<close> are 16-bit and 8-bit words. Unsigned arithmetic wraps
  around, \<open>div\<close> and \<open>mod\<close> on words are the unsigned \<open>/\<close> and \<open>%\<close> of C. A \<open>uint32_t\<close>
  stored into an \<open>int\<close> keeps its 32 bits, so the \<open>int segment\<close> of the source is a
  32-bit word as well.
\<close>

type_synonym u8 = "8 word"
type_synonym u16 = "16 word"
type_synonym u32 = "32 word"
type_synonym s32 = "32 word"

subsection \<open>Memory blocks, the machine's raw accessors, the region adapter\<close>

text \<open>
  \<open>struct mCoreMemoryBlock\<close>: the fields the source reads, \<open>start\<close>, \<open>end\<close>,
  \<open>segmentStart\<close> and \<open>internalName\<close> (\<open>end\<close> is a keyword here, so every field is
  prefixed). A \<open>segmentStart\<close> of 0 is a descriptor with no segment start.
\<close>

record mCoreMemoryBlock =
  block_start :: u32
  block_end :: u32
  block_segmentStart :: u32
  block_internalName :: string

text \<open>
  \<open>struct mCore\<close>: the function pointers the source calls, over a machine state \<open>'m\<close>.
  Each accessor takes its arguments in the position the source passes them: for the
  raw accessors the first is the address and the second the \<open>int segment\<close>, the bank
  index, as the calls of the read operations show
  (\<open>rawRead8(adapter->core, segmentAddress, segment)\<close>).
\<close>

record 'm mCore =
  rawRead8 :: "'m \<Rightarrow> u32 \<Rightarrow> s32 \<Rightarrow> u32"
  rawRead16 :: "'m \<Rightarrow> u32 \<Rightarrow> s32 \<Rightarrow> u32"
  rawRead32 :: "'m \<Rightarrow> u32 \<Rightarrow> s32 \<Rightarrow> u32"
  rawWrite8 :: "'m \<Rightarrow> u32 \<Rightarrow> s32 \<Rightarrow> u8 \<Rightarrow> 'm"
  rawWrite16 :: "'m \<Rightarrow> u32 \<Rightarrow> s32 \<Rightarrow> u16 \<Rightarrow> 'm"
  rawWrite32 :: "'m \<Rightarrow> u32 \<Rightarrow> s32 \<Rightarrow> u32 \<Rightarrow> 'm"
  listMemoryBlocks :: "'m \<Rightarrow> mCoreMemoryBlock list"

text \<open>\<open>struct mScriptMemoryAdapter\<close>: the machine and a copy of the descriptor.\<close>

record 'm mScriptMemoryAdapter =
  core :: "'m mCore"
  block :: mCoreMemoryBlock

text \<open>
  Unsigned division by zero is undefined behaviour in C; the model returns it as a
  fault, so that every operation says where it divides.
\<close>

datatype fault = DivisionByZero

text \<open>
  The macro \<open>CALCULATE_SEGMENT_INFO\<close>: the locals \<open>segmentSize\<close> and \<open>segmentStart\<close>
  it declares, as a pair.
\<close>

definition CALCULATE_SEGMENT_INFO :: "mCoreMemoryBlock \<Rightarrow> u32 \<times> u32" where
  "CALCULATE_SEGMENT_INFO b =
     (let segmentSize = block_end b - block_start b;
          segmentStart = block_segmentStart b - block_start b
      in (if block_segmentStart b \<noteq> 0 then segmentSize - segmentStart else segmentSize,
          segmentStart))"

text \<open>
  The macro \<open>CALCULATE_SEGMENT_ADDRESS\<close>: the locals \<open>segmentAddress\<close> and \<open>segment\<close>
  it declares, from the locals of \<open>CALCULATE_SEGMENT_INFO\<close> and \<open>address\<close>.
\<close>

definition CALCULATE_SEGMENT_ADDRESS ::
    "mCoreMemoryBlock \<Rightarrow> u32 \<times> u32 \<Rightarrow> u32 \<Rightarrow> fault + (u32 \<times> s32)" where
  "CALCULATE_SEGMENT_ADDRESS b info address =
     (case info of (segmentSize, segmentStart) \<Rightarrow>
        if segmentSize = 0 then Inl DivisionByZero
        else
          let segmentAddress = address mod segmentSize;
              segment = address div segmentSize;
              segmentAddress = segmentAddress + block_start b
          in Inr (if block_segmentStart b \<noteq> 0 \<and> segment \<noteq> 0
                  then segmentAddress + segmentStart else segmentAddress,
                  segment))"

definition mScriptMemoryAdapterRead8 ::
    "'m mScriptMemoryAdapter \<Rightarrow> 'm \<Rightarrow> u32 \<Rightarrow> fault + u32" where
  "mScriptMemoryAdapterRead8 adapter m address =
     (case CALCULATE_SEGMENT_ADDRESS (block adapter) (CALCULATE_SEGMENT_INFO (block adapter)) address of
        Inl e \<Rightarrow> Inl e
      | Inr (segmentAddress, segment) \<Rightarrow> Inr (rawRead8 (core adapter) m segmentAddress segment))"

definition mScriptMemoryAdapterRead16 ::
    "'m mScriptMemoryAdapter \<Rightarrow> 'm \<Rightarrow> u32 \<Rightarrow> fault + u32" where
  "mScriptMemoryAdapterRead16 adapter m address =
     (case CALCULATE_SEGMENT_ADDRESS (block adapter) (CALCULATE_SEGMENT_INFO (block adapter)) address of
        Inl e \<Rightarrow> Inl e
      | Inr (segmentAddress, segment) \<Rightarrow> Inr (rawRead16 (core adapter) m segmentAddress segment))"

definition mScriptMemoryAdapterRead32 ::
    "'m mScriptMemoryAdapter \<Rightarrow> 'm \<Rightarrow> u32 \<Rightarrow> fault + u32" where
  "mScriptMemoryAdapterRead32 adapter m address =
     (case CALCULATE_SEGMENT_ADDRESS (block adapter) (CALCULATE_SEGMENT_INFO (block adapter)) address of
        Inl e \<Rightarrow> Inl e
      | Inr (segmentAddress, segment) \<Rightarrow> Inr (rawRead32 (core adapter) m segmentAddress segment))"

text \<open>
  The write operations pass \<open>address\<close> and \<open>segmentAddress\<close>, in this order, where the
  read operations pass \<open>segmentAddress\<close> and \<open>segment\<close>:
  \<open>adapter->core->rawWrite8(adapter->core, address, segmentAddress, value)\<close>.
\<close>

definition mScriptMemoryAdapterWrite8 ::
    "'m mScriptMemoryAdapter \<Rightarrow> 'm \<Rightarrow> u32 \<Rightarrow> u8 \<Rightarrow> fault + 'm" where
  "mScriptMemoryAdapterWrite8 adapter m address val =
     (case CALCULATE_SEGMENT_ADDRESS (block adapter) (CALCULATE_SEGMENT_INFO (block adapter)) address of
        Inl e \<Rightarrow> Inl e
      | Inr (segmentAddress, segment) \<Rightarrow> Inr (rawWrite8 (core adapter) m address segmentAddress val))"

definition mScriptMemoryAdapterWrite16 ::
    "'m mScriptMemoryAdapter \<Rightarrow> 'm \<Rightarrow> u32 \<Rightarrow> u16 \<Rightarrow> fault + 'm" where
  "mScriptMemoryAdapterWrite16 adapter m address val =
     (case CALCULATE_SEGMENT_ADDRESS (block adapter) (CALCULATE_SEGMENT_INFO (block adapter)) address of
        Inl e \<Rightarrow> Inl e
      | Inr (segmentAddress, segment) \<Rightarrow> Inr (rawWrite16 (core adapter) m address segmentAddress val))"

definition mScriptMemoryAdapterWrite32 ::
    "'m mScriptMemoryAdapter \<Rightarrow> 'm \<Rightarrow> u32 \<Rightarrow> u32 \<Rightarrow> fault + 'm" where
  "mScriptMemoryAdapterWrite32 adapter m address val =
     (case CALCULATE_SEGMENT_ADDRESS (block adapter) (CALCULATE_SEGMENT_INFO (block adapter)) address of
        Inl e \<Rightarrow> Inl e
      | Inr (segmentAddress, segment) \<Rightarrow> Inr (rawWrite32 (core adapter) m address segmentAddress val))"

text \<open>
  The loop of \<open>mScriptMemoryAdapterReadRange\<close>,
  \<open>for (i = 0; i < length; ++i, ++address)\<close>, with the list it appends to. The macro
  \<open>CALCULATE_SEGMENT_INFO\<close> runs once before the loop, \<open>CALCULATE_SEGMENT_ADDRESS\<close>
  in every iteration.
\<close>

function readRange_loop ::
    "'m mScriptMemoryAdapter \<Rightarrow> 'm \<Rightarrow> u32 \<times> u32 \<Rightarrow> u32 \<Rightarrow> u32 \<Rightarrow> u32 \<Rightarrow> u32 list
      \<Rightarrow> fault + u32 list" where
  "readRange_loop adapter m info len i address list =
     (if i < len then
        (case CALCULATE_SEGMENT_ADDRESS (block adapter) info address of
           Inl e \<Rightarrow> Inl e
         | Inr (segmentAddress, segment) \<Rightarrow>
             readRange_loop adapter m info len (i + 1) (address + 1)
               (list @ [rawRead8 (core adapter) m segmentAddress segment]))
      else Inr list)"
  by pat_completeness auto
termination
proof (relation "measure (\<lambda>(adapter, m, info, len, i, address, list). unat len - unat i)")
  show "wf (measure (\<lambda>(adapter, m, info, len, i, address, list). unat len - unat i))"
    by simp
next
  fix adapter :: "'m mScriptMemoryAdapter" and m :: 'm and info :: "u32 \<times> u32"
    and len i address :: u32 and list :: "u32 list" and x2 x y
  assume lt: "i < len"
  have "unat len - unat (i + 1) < unat len - unat i"
    using lt by unat_arith
  then show
    "((adapter, m, info, len, i + 1, address + 1,
        list @ [rawRead8 (core adapter) m x y]),
      (adapter, m, info, len, i, address, list))
     \<in> measure (\<lambda>(adapter, m, info, len, i, address, list). unat len - unat i)"
    by simp
qed

declare readRange_loop.simps [simp del]

definition mScriptMemoryAdapterReadRange ::
    "'m mScriptMemoryAdapter \<Rightarrow> 'm \<Rightarrow> u32 \<Rightarrow> u32 \<Rightarrow> fault + u32 list" where
  "mScriptMemoryAdapterReadRange adapter m address len =
     readRange_loop adapter m (CALCULATE_SEGMENT_INFO (block adapter)) len 0 address []"

subsection \<open>Default arguments of the savestate bindings\<close>

text \<open>
  \<open>mSCRIPT_DEFINE_STRUCT_BINDING_DEFAULTS(mCore, saveStateSlot)\<close> and
  \<open>(mCore, loadStateSlot)\<close>: one entry per parameter, \<open>mSCRIPT_NO_DEFAULT\<close> is \<open>None\<close>.
  The constants \<open>SAVESTATE_ALL\<close> and \<open>SAVESTATE_SAVEDATA\<close> come from
  \<open>mgba/core/serialize.h\<close>, which is not among the sources, and are parameters.
\<close>

definition saveStateSlot_defaults :: "s32 \<Rightarrow> s32 option list" where
  "saveStateSlot_defaults SAVESTATE_ALL = [None, Some SAVESTATE_ALL]"

definition loadStateSlot_defaults :: "s32 \<Rightarrow> s32 \<Rightarrow> s32 option list" where
  "loadStateSlot_defaults SAVESTATE_ALL SAVESTATE_SAVEDATA =
     [None, Some (SAVESTATE_ALL AND NOT SAVESTATE_SAVEDATA)]"

text \<open>
  Modelled from the spec: the binding macro \<open>mSCRIPT_DECLARE_STRUCT_METHOD_WITH_DEFAULTS\<close>
  (\<open>mgba/script/macros.h\<close>, not among the sources), which the spec describes as a typed
  invocation thunk with argument arity and default values. Arguments the caller leaves
  out at the end of the call are taken from the table of defaults; the call fails
  when an argument is missing and has no default, or when there are too many.
\<close>

fun fillDefaults :: "'a option list \<Rightarrow> 'a list \<Rightarrow> 'a list option" where
  "fillDefaults [] [] = Some []"
| "fillDefaults [] (a # args) = None"
| "fillDefaults (d # defaults) (a # args) = map_option ((#) a) (fillDefaults defaults args)"
| "fillDefaults (d # defaults) [] =
     (case d of None \<Rightarrow> None | Some v \<Rightarrow> map_option ((#) v) (fillDefaults defaults []))"

text \<open>
  The script methods \<open>saveStateSlot\<close> and \<open>loadStateSlot\<close> of \<open>mCore\<close>, bound to
  \<open>mCoreSaveState\<close> and \<open>mCoreLoadState\<close> (not among the sources: parameters) with two
  parameters, \<open>slot\<close> and \<open>flags\<close>.
\<close>

definition saveStateSlot ::
    "s32 \<Rightarrow> ('m \<Rightarrow> s32 \<Rightarrow> s32 \<Rightarrow> 'r) \<Rightarrow> 'm \<Rightarrow> s32 list \<Rightarrow> 'r option" where
  "saveStateSlot SAVESTATE_ALL mCoreSaveState m args =
     (case fillDefaults (saveStateSlot_defaults SAVESTATE_ALL) args of
        Some [slot, flags] \<Rightarrow> Some (mCoreSaveState m slot flags)
      | _ \<Rightarrow> None)"

definition loadStateSlot ::
    "s32 \<Rightarrow> s32 \<Rightarrow> ('m \<Rightarrow> s32 \<Rightarrow> s32 \<Rightarrow> 'r) \<Rightarrow> 'm \<Rightarrow> s32 list \<Rightarrow> 'r option" where
  "loadStateSlot SAVESTATE_ALL SAVESTATE_SAVEDATA mCoreLoadState m args =
     (case fillDefaults (loadStateSlot_defaults SAVESTATE_ALL SAVESTATE_SAVEDATA) args of
        Some [slot, flags] \<Rightarrow> Some (mCoreLoadState m slot flags)
      | _ \<Rightarrow> None)"

subsection \<open>The engine registry\<close>

text \<open>
  \<open>struct mScriptEngine\<close>: the hooks the functions below call. A hook answers from the
  arguments it is given. \<open>lookupSymbol\<close> receives the pointer \<open>out\<close>: the model passes
  the content of the cell and takes back the content the hook leaves there, with the
  hook's answer. A \<open>struct VFile*\<close> is an opaque handle.
\<close>

type_synonym VFile = nat

record mScriptEngine =
  isScript :: "string \<Rightarrow> VFile \<Rightarrow> bool"
  loadScript :: "string \<Rightarrow> VFile \<Rightarrow> bool"
  lookupSymbol :: "string \<Rightarrow> s32 \<Rightarrow> bool \<times> s32"

text \<open>
  What a call of the registry does to its collaborators, in order: the hooks it
  invokes, each with the key of the engine and the hook's answer, and the closing of
  the file.
\<close>

datatype hookCall =
    IsScript string bool
  | LoadScript string bool
  | LookupSymbol string bool s32
  | VFileClose VFile

text \<open>
  \<open>struct mScriptBridge\<close>: the table of engines, as its entries in the order
  \<open>HashTableEnumerate\<close> visits them (the field \<open>debugger\<close> plays no part here).
\<close>

record mScriptBridge =
  engines :: "(string \<times> mScriptEngine) list"

record mScriptInfo =
  info_name :: string
  info_vf :: VFile
  info_success :: bool

text \<open>\<open>struct mScriptSymbol\<close>: \<open>symbol_out\<close> is the content of the cell \<open>out\<close> points to.\<close>

record mScriptSymbol =
  symbol_name :: string
  symbol_out :: s32
  symbol_success :: bool

text \<open>
  Modelled from the spec: \<open>HashTableEnumerate\<close> (\<open>mgba-util/table.h\<close>, not among the
  sources) calls the handler once for every entry of the table, in an order the spec
  leaves open, passing the user data along.
\<close>

definition HashTableEnumerate ::
    "(string \<times> 'v) list \<Rightarrow> (string \<Rightarrow> 'v \<Rightarrow> 'u \<Rightarrow> 'u) \<Rightarrow> 'u \<Rightarrow> 'u" where
  "HashTableEnumerate table handler user = fold (\<lambda>(key, value). handler key value) table user"

text \<open>
  \<open>_seTryLoad\<close> and \<open>_seLookupSymbol\<close> (a name cannot start with an underscore here).
  The user data is the struct of the source together with the calls made so far.
\<close>

definition seTryLoad ::
    "string \<Rightarrow> mScriptEngine \<Rightarrow> mScriptInfo \<times> hookCall list \<Rightarrow> mScriptInfo \<times> hookCall list" where
  "seTryLoad key se user =
     (case user of (si, calls) \<Rightarrow>
        if \<not> info_success si then
          if isScript se (info_name si) (info_vf si) then
            (let r = loadScript se (info_name si) (info_vf si)
             in (si\<lparr>info_success := r\<rparr>, calls @ [IsScript key True, LoadScript key r]))
          else (si, calls @ [IsScript key False])
        else (si, calls))"

definition seLookupSymbol ::
    "string \<Rightarrow> mScriptEngine \<Rightarrow> mScriptSymbol \<times> hookCall list
      \<Rightarrow> mScriptSymbol \<times> hookCall list" where
  "seLookupSymbol key se user =
     (case user of (si, calls) \<Rightarrow>
        if \<not> symbol_success si then
          (case lookupSymbol se (symbol_name si) (symbol_out si) of (r, out) \<Rightarrow>
             (si\<lparr>symbol_out := out, symbol_success := r\<rparr>, calls @ [LookupSymbol key r out]))
        else (si, calls))"

text \<open>
  \<open>mScriptBridgeLoadScript\<close>: \<open>VFileOpen\<close> (\<open>mgba-util/vfs.h\<close>) is a parameter, \<open>None\<close>
  is the null pointer it returns for a resource it cannot open. The result is the
  returned \<open>bool\<close> and the calls made.
\<close>

definition mScriptBridgeLoadScript ::
    "mScriptBridge \<Rightarrow> (string \<Rightarrow> VFile option) \<Rightarrow> string \<Rightarrow> bool \<times> hookCall list" where
  "mScriptBridgeLoadScript sb VFileOpen name =
     (case VFileOpen name of
        None \<Rightarrow> (False, [])
      | Some vf \<Rightarrow>
          (case HashTableEnumerate (engines sb) seTryLoad
                  (\<lparr>info_name = name, info_vf = vf, info_success = False\<rparr>, []) of
             (info, calls) \<Rightarrow> (info_success info, calls @ [VFileClose vf])))"

text \<open>
  \<open>mScriptBridgeLookupSymbol\<close>: the returned \<open>bool\<close>, the content of \<open>*out\<close> on return,
  and the calls made.
\<close>

definition mScriptBridgeLookupSymbol ::
    "mScriptBridge \<Rightarrow> string \<Rightarrow> s32 \<Rightarrow> bool \<times> s32 \<times> hookCall list" where
  "mScriptBridgeLookupSymbol sb name out =
     (case HashTableEnumerate (engines sb) seLookupSymbol
             (\<lparr>symbol_name = name, symbol_out = out, symbol_success = False\<rparr>, []) of
        (info, calls) \<Rightarrow> (symbol_success info, symbol_out info, calls))"

text \<open>
  The registry as the spec words it, for comparison with the functions above: the file
  is offered to the engines in turn and the scan stops at the first engine that both
  identifies the script and loads it; a symbol is asked of the engines in turn and
  the scan stops at the first engine that resolves it.
\<close>

fun offer_first ::
    "string \<Rightarrow> VFile \<Rightarrow> (string \<times> mScriptEngine) list \<Rightarrow> bool \<times> hookCall list" where
  "offer_first name vf [] = (False, [])"
| "offer_first name vf ((key, se) # rest) =
     (if isScript se name vf then
        (if loadScript se name vf then (True, [IsScript key True, LoadScript key True])
         else (case offer_first name vf rest of
                 (r, calls) \<Rightarrow> (r, IsScript key True # LoadScript key False # calls)))
      else (case offer_first name vf rest of (r, calls) \<Rightarrow> (r, IsScript key False # calls)))"

fun query_first ::
    "string \<Rightarrow> s32 \<Rightarrow> (string \<times> mScriptEngine) list \<Rightarrow> bool \<times> s32 \<times> hookCall list" where
  "query_first name out [] = (False, out, [])"
| "query_first name out ((key, se) # rest) =
     (case lookupSymbol se name out of
        (True, v) \<Rightarrow> (True, v, [LookupSymbol key True v])
      | (False, v) \<Rightarrow>
          (case query_first name v rest of
             (r, v', calls) \<Rightarrow> (r, v', LookupSymbol key False v # calls)))"

fun call_key :: "hookCall \<Rightarrow> string" where
  "call_key (IsScript k b) = k"
| "call_key (LoadScript k b) = k"
| "call_key (LookupSymbol k b v) = k"
| "call_key (VFileClose vf) = []"

fun is_close :: "hookCall \<Rightarrow> bool" where
  "is_close (VFileClose vf) = True"
| "is_close c = False"

subsection \<open>The memory map of the core adapter\<close>

text \<open>
  A script value: the wrapper of a region adapter that \<open>_rebuildMemoryMap\<close> allocates,
  or any other value a weak reference of the script context may stand for.
\<close>

datatype 'm mScriptValue =
    MemoryAdapterValue "'m mScriptMemoryAdapter"
  | OtherValue string

text \<open>
  Modelled from the spec: the weak references of \<open>struct mScriptContext\<close>
  (\<open>mgba/script/context.h\<close>, not among the sources). The spec says that a weak
  reference is a handle into an arena of script values, that every region adapter is
  stored behind a fresh weak reference, and that dereferencing after the referent is
  cleared yields absent. Handles are numbers issued in increasing order, so a handle
  is never issued twice; reference counts are left out.
\<close>

record 'm mScriptContext =
  weakrefs :: "nat \<Rightarrow> 'm mScriptValue option"
  nextWeakref :: nat

definition mScriptContextMakeWeakref ::
    "'m mScriptContext \<Rightarrow> 'm mScriptValue \<Rightarrow> nat \<times> 'm mScriptContext" where
  "mScriptContextMakeWeakref ctx v =
     (nextWeakref ctx,
      ctx\<lparr>weakrefs := (weakrefs ctx)(nextWeakref ctx \<mapsto> v),
          nextWeakref := nextWeakref ctx + 1\<rparr>)"

definition mScriptContextClearWeakref :: "'m mScriptContext \<Rightarrow> nat \<Rightarrow> 'm mScriptContext" where
  "mScriptContextClearWeakref ctx weakref = ctx\<lparr>weakrefs := (weakrefs ctx)(weakref := None)\<rparr>"

definition mScriptContextAccessWeakref ::
    "'m mScriptContext \<Rightarrow> nat \<Rightarrow> 'm mScriptValue option" where
  "mScriptContextAccessWeakref ctx weakref = weakrefs ctx weakref"

text \<open>
  Modelled from the spec: \<open>mScriptTableInsert\<close> (\<open>mgba/script/types.h\<close>, not among the
  sources) on a table keyed by strings; a later insertion under a key that is there
  replaces the earlier value (table semantics). The table is the list of its entries.
\<close>

fun mScriptTableInsert :: "(string \<times> 'a) list \<Rightarrow> string \<Rightarrow> 'a \<Rightarrow> (string \<times> 'a) list" where
  "mScriptTableInsert [] key v = [(key, v)]"
| "mScriptTableInsert ((k, w) # rest) key v =
     (if k = key then (key, v) # rest else (k, w) # mScriptTableInsert rest key v)"

text \<open>
  \<open>struct mScriptCoreAdapter\<close>: the machine and the table \<open>memory\<close>, from a region name
  to the weak reference of its adapter. The script context is passed beside it.
\<close>

record 'm mScriptCoreAdapter =
  adapter_core :: "'m mCore"
  adapter_memory :: "(string \<times> nat) list"

text \<open>
  \<open>_clearMemoryMap\<close>: every entry of the table is a weak reference (the test
  \<open>if (weakref)\<close> of the source always succeeds on a table entry); with \<open>clear\<close> set it
  is cleared in the context. Then \<open>mScriptTableClear\<close> empties the table.
\<close>

definition clearMemoryMap ::
    "'m mScriptContext \<Rightarrow> 'm mScriptCoreAdapter \<Rightarrow> bool
      \<Rightarrow> 'm mScriptContext \<times> 'm mScriptCoreAdapter" where
  "clearMemoryMap ctx adapter clear =
     (fold (\<lambda>(key, weakref) c. if clear then mScriptContextClearWeakref c weakref else c)
        (adapter_memory adapter) ctx,
      adapter\<lparr>adapter_memory := []\<rparr>)"

text \<open>The body of the loop of \<open>_rebuildMemoryMap\<close>, for the descriptor \<open>blocks[i]\<close>.\<close>

definition rebuild_step ::
    "mCoreMemoryBlock \<Rightarrow> 'm mScriptContext \<times> 'm mScriptCoreAdapter
      \<Rightarrow> 'm mScriptContext \<times> 'm mScriptCoreAdapter" where
  "rebuild_step b st =
     (case st of (ctx, adapter) \<Rightarrow>
        (let memadapter = \<lparr>core = adapter_core adapter, block = b\<rparr>;
             val = MemoryAdapterValue memadapter;
             key = block_internalName b
         in (case mScriptContextMakeWeakref ctx val of
               (weakref, ctx') \<Rightarrow>
                 (ctx', adapter\<lparr>adapter_memory :=
                    mScriptTableInsert (adapter_memory adapter) key weakref\<rparr>))))"

definition rebuildMemoryMap ::
    "'m mScriptContext \<Rightarrow> 'm mScriptCoreAdapter \<Rightarrow> 'm
      \<Rightarrow> 'm mScriptContext \<times> 'm mScriptCoreAdapter" where
  "rebuildMemoryMap ctx adapter m =
     (case clearMemoryMap ctx adapter True of
        (ctx', adapter') \<Rightarrow>
          fold rebuild_step (listMemoryBlocks (adapter_core adapter') m) (ctx', adapter'))"

subsection \<open>Concrete regions, machines and engines\<close>

text \<open>
  The single-byte read that the loop of \<open>mScriptMemoryAdapterReadRange\<close> appends for the
  offset \<open>a\<close> (0 where the translation faults, which the loop never appends).
\<close>

definition rd8 :: "'m mScriptMemoryAdapter \<Rightarrow> 'm \<Rightarrow> u32 \<times> u32 \<Rightarrow> u32 \<Rightarrow> u32" where
  "rd8 ad m info a =
     (case CALCULATE_SEGMENT_ADDRESS (block ad) info a of
        Inr (sa, seg) \<Rightarrow> rawRead8 (core ad) m sa seg
      | Inl e \<Rightarrow> 0)"

definition bank_block :: mCoreMemoryBlock where
  "bank_block = \<lparr>block_start = 0, block_end = 0x4000, block_segmentStart = 0x2000,
     block_internalName = ''cart0''\<rparr>"

definition wram_block :: mCoreMemoryBlock where
  "wram_block = \<lparr>block_start = 0x02000000, block_end = 0x02040000, block_segmentStart = 0,
     block_internalName = ''wram''\<rparr>"

definition empty_block :: mCoreMemoryBlock where
  "empty_block = \<lparr>block_start = 0x100, block_end = 0x100, block_segmentStart = 0,
     block_internalName = ''none''\<rparr>"

text \<open>
  A machine whose state is the list of the raw writes it has received, each with the
  two arguments and the value in the order they were passed, and whose raw reads
  return the sum of their two arguments.
\<close>

definition log_core :: "(u32 \<times> s32 \<times> u32) list mCore" where
  "log_core = \<lparr>rawRead8 = (\<lambda>m a s. a + s), rawRead16 = (\<lambda>m a s. a + s),
     rawRead32 = (\<lambda>m a s. a + s),
     rawWrite8 = (\<lambda>m a s v. m @ [(a, s, ucast v)]),
     rawWrite16 = (\<lambda>m a s v. m @ [(a, s, ucast v)]),
     rawWrite32 = (\<lambda>m a s v. m @ [(a, s, v)]),
     listMemoryBlocks = (\<lambda>m. [wram_block, bank_block])\<rparr>"

definition py_engine :: mScriptEngine where
  "py_engine = \<lparr>isScript = (\<lambda>name vf. False), loadScript = (\<lambda>name vf. False),
     lookupSymbol = (\<lambda>name out. (False, out))\<rparr>"

definition lua_engine :: mScriptEngine where
  "lua_engine = \<lparr>isScript = (\<lambda>name vf. name = ''a.lua''), loadScript = (\<lambda>name vf. True),
     lookupSymbol = (\<lambda>name out. if name = ''x'' then (True, 42) else (False, out))\<rparr>"

definition js_engine :: mScriptEngine where
  "js_engine = \<lparr>isScript = (\<lambda>name vf. True), loadScript = (\<lambda>name vf. True),
     lookupSymbol = (\<lambda>name out. (True, 7))\<rparr>"

definition example_bridge :: mScriptBridge where
  "example_bridge =
     \<lparr>engines = [(''py'', py_engine), (''lua'', lua_engine), (''js'', js_engine)]\<rparr>"

definition py_bridge :: mScriptBridge where
  "py_bridge = \<lparr>engines = [(''py'', py_engine)]\<rparr>"

definition two_bridge :: mScriptBridge where
  "two_bridge = \<lparr>engines = [(''py'', py_engine), (''lua'', lua_engine)]\<rparr>"

definition swapped_bridge :: mScriptBridge where
  "swapped_bridge = \<lparr>engines = [(''lua'', lua_engine), (''py'', py_engine)]\<rparr>"

definition example_vfs :: "string \<Rightarrow> VFile option" where
  "example_vfs name = (if name = ''a.lua'' then Some 3 else None)"

definition example_context :: "(u32 \<times> s32 \<times> u32) list mScriptContext" where
  "example_context = \<lparr>weakrefs = [0 \<mapsto> OtherValue ''emu'',
       1 \<mapsto> MemoryAdapterValue \<lparr>core = log_core, block = wram_block\<rparr>],
     nextWeakref = 2\<rparr>"

definition example_adapter :: "(u32 \<times> s32 \<times> u32) list mScriptCoreAdapter" where
  "example_adapter = \<lparr>adapter_core = log_core, adapter_memory = [(''wram'', 1)]\<rparr>"

section \<open>Segmented address translation\<close>

subsection \<open>Translation faults and the loop of the range read\<close>

lemma seg_fault_iff:
  "(CALCULATE_SEGMENT_ADDRESS b info a = Inl DivisionByZero) = (fst info = 0)"
  by (cases info) (simp add: CALCULATE_SEGMENT_ADDRESS_def Let_def)

lemma seg_isl: "isl (CALCULATE_SEGMENT_ADDRESS b info a) = (fst info = 0)"
  by (cases info) (simp add: CALCULATE_SEGMENT_ADDRESS_def Let_def)

lemma read8_isl:
  "isl (mScriptMemoryAdapterRead8 ad m a) = (fst (CALCULATE_SEGMENT_INFO (block ad)) = 0)"
  using seg_isl[of "block ad" "CALCULATE_SEGMENT_INFO (block ad)" a]
  by (auto simp: mScriptMemoryAdapterRead8_def split: sum.splits)

lemma read16_isl:
  "isl (mScriptMemoryAdapterRead16 ad m a) = (fst (CALCULATE_SEGMENT_INFO (block ad)) = 0)"
  using seg_isl[of "block ad" "CALCULATE_SEGMENT_INFO (block ad)" a]
  by (auto simp: mScriptMemoryAdapterRead16_def split: sum.splits)

lemma read32_isl:
  "isl (mScriptMemoryAdapterRead32 ad m a) = (fst (CALCULATE_SEGMENT_INFO (block ad)) = 0)"
  using seg_isl[of "block ad" "CALCULATE_SEGMENT_INFO (block ad)" a]
  by (auto simp: mScriptMemoryAdapterRead32_def split: sum.splits)

lemma write8_isl:
  "isl (mScriptMemoryAdapterWrite8 ad m a v) = (fst (CALCULATE_SEGMENT_INFO (block ad)) = 0)"
  using seg_isl[of "block ad" "CALCULATE_SEGMENT_INFO (block ad)" a]
  by (auto simp: mScriptMemoryAdapterWrite8_def split: sum.splits)

lemma write16_isl:
  "isl (mScriptMemoryAdapterWrite16 ad m a v) = (fst (CALCULATE_SEGMENT_INFO (block ad)) = 0)"
  using seg_isl[of "block ad" "CALCULATE_SEGMENT_INFO (block ad)" a]
  by (auto simp: mScriptMemoryAdapterWrite16_def split: sum.splits)

lemma write32_isl:
  "isl (mScriptMemoryAdapterWrite32 ad m a v) = (fst (CALCULATE_SEGMENT_INFO (block ad)) = 0)"
  using seg_isl[of "block ad" "CALCULATE_SEGMENT_INFO (block ad)" a]
  by (auto simp: mScriptMemoryAdapterWrite32_def split: sum.splits)

lemma loop_zero:
  "fst info = 0 \<Longrightarrow> i < len \<Longrightarrow> readRange_loop ad m info len i a list = Inl DivisionByZero"
  by (cases info) (simp add: readRange_loop.simps CALCULATE_SEGMENT_ADDRESS_def)

text \<open>
  With a segment size other than 0 the loop returns the list it was given, followed by
  one translated single-byte read for each remaining index.
\<close>

lemma loop_char:
  "fst info \<noteq> 0 \<Longrightarrow> i \<le> len \<Longrightarrow>
   readRange_loop ad m info len i a list
     = Inr (list @ map (\<lambda>k. rd8 ad m info (a + of_nat k)) [0..<unat len - unat i])"
proof (induction ad m info len i a list rule: readRange_loop.induct)
  case (1 adapter m info len i address list)
  show ?case
  proof (cases "i < len")
    case False
    with 1(3) have "i = len" by simp
    then show ?thesis by (simp add: readRange_loop.simps)
  next
    case True
    obtain sa seg where c: "CALCULATE_SEGMENT_ADDRESS (block adapter) info address = Inr (sa, seg)"
      using 1(2) by (cases info) (auto simp: CALCULATE_SEGMENT_ADDRESS_def Let_def)
    have le: "i + 1 \<le> len" using True by (rule inc_le)
    have u: "unat len - unat i = Suc (unat len - unat (i + 1))"
      using True by unat_arith
    have ih: "readRange_loop adapter m info len (i + 1) (address + 1)
          (list @ [rawRead8 (core adapter) m sa seg])
       = Inr ((list @ [rawRead8 (core adapter) m sa seg]) @
           map (\<lambda>k. rd8 adapter m info (address + 1 + of_nat k)) [0..<unat len - unat (i + 1)])"
      using 1(1)[OF True c refl 1(2) le] .
    have m: "map (\<lambda>k. rd8 adapter m info (address + of_nat k)) [0..<Suc (unat len - unat (i + 1))]
       = rd8 adapter m info address #
           map (\<lambda>k. rd8 adapter m info (address + 1 + of_nat k)) [0..<unat len - unat (i + 1)]"
      by (simp add: upt_rec[of 0] map_Suc_upt[symmetric] add.assoc del: upt_Suc)
    have r: "rd8 adapter m info address = rawRead8 (core adapter) m sa seg"
      by (simp add: rd8_def c)
    show ?thesis
      apply (subst readRange_loop.simps)
      apply (simp only: True if_True c sum.case prod.case ih u m r)
      apply simp
      done
  qed
qed

lemma range_isl:
  "isl (mScriptMemoryAdapterReadRange ad m a n)
     = (fst (CALCULATE_SEGMENT_INFO (block ad)) = 0 \<and> n \<noteq> 0)"
proof (cases "fst (CALCULATE_SEGMENT_INFO (block ad)) = 0")
  case True
  show ?thesis
  proof (cases "n = 0")
    case True
    then show ?thesis by (simp add: mScriptMemoryAdapterReadRange_def readRange_loop.simps)
  next
    case False
    then have "0 < n" by (simp add: word_greater_zero_iff)
    then show ?thesis using True False
      by (simp add: mScriptMemoryAdapterReadRange_def loop_zero)
  qed
next
  case False
  then show ?thesis
    by (simp add: mScriptMemoryAdapterReadRange_def loop_char)
qed

lemma seg_size_pos:
  "block_start b < block_end b \<Longrightarrow>
   (block_segmentStart b \<noteq> 0 \<longrightarrow>
      block_segmentStart b - block_start b < block_end b - block_start b) \<Longrightarrow>
   0 < fst (CALCULATE_SEGMENT_INFO b)"
  apply (simp add: CALCULATE_SEGMENT_INFO_def Let_def word_greater_zero_iff)
  apply unat_arith
  done

lemma unbanked_translate:
  "block_segmentStart b = 0 \<Longrightarrow> address < block_end b - block_start b \<Longrightarrow>
   CALCULATE_SEGMENT_ADDRESS b (CALCULATE_SEGMENT_INFO b) address
     = Inr (block_start b + address, 0)"
  apply (simp add: CALCULATE_SEGMENT_INFO_def CALCULATE_SEGMENT_ADDRESS_def Let_def)
  apply (auto simp: word_mod_less_divisor div_word_less mod_word_less)
  done

subsection \<open>The concrete regions\<close>

lemma bank_info: "CALCULATE_SEGMENT_INFO bank_block = (0x2000, 0x2000)"
  by (simp add: CALCULATE_SEGMENT_INFO_def bank_block_def)

lemma bank_fields:
  "block_start bank_block = 0" "block_end bank_block = 0x4000"
  "block_segmentStart bank_block = 0x2000"
  by (simp_all add: bank_block_def)

lemma log_core_read8: "rawRead8 log_core m a s = a + s"
  by (simp add: log_core_def)

lemma wram_translate:
  "CALCULATE_SEGMENT_ADDRESS wram_block (CALCULATE_SEGMENT_INFO wram_block) 0x10
     = Inr (0x02000010, 0)"
  by (simp add: CALCULATE_SEGMENT_INFO_def CALCULATE_SEGMENT_ADDRESS_def wram_block_def)

subsection \<open>The claims about the region adapter\<close>

text \<open>
  C1. The claim: write8, write16 and write32 apply the translation of the read
  operations and call the raw write accessor with the translated physical address and
  the bank index \<open>address div segmentSize\<close>. The source does not: on the region
  \<open>wram\<close> (\<open>start = 0x02000000\<close>, \<open>end = 0x02040000\<close>, no segment start) a write at
  offset \<open>0x10\<close> calls the raw write accessor with the untranslated offset \<open>0x10\<close>
  in the place of the address and the translated address \<open>0x02000010\<close> in the place
  of the bank index, for every machine and every width, where the read at the same
  offset calls the raw read accessor with \<open>0x02000010\<close> and bank \<open>0\<close>. On the machine
  that logs its raw writes, the logged call is \<open>(0x10, 0x02000010, 0xAA)\<close> and not
  the \<open>(0x02000010, 0, 0xAA)\<close> of the claim.
\<close>

theorem write_forwards_untranslated_address:
  "mScriptMemoryAdapterWrite8 \<lparr>core = c, block = wram_block\<rparr> m 0x10 v8
     = Inr (rawWrite8 c m 0x10 0x02000010 v8)
   \<and> mScriptMemoryAdapterWrite16 \<lparr>core = c, block = wram_block\<rparr> m 0x10 v16
     = Inr (rawWrite16 c m 0x10 0x02000010 v16)
   \<and> mScriptMemoryAdapterWrite32 \<lparr>core = c, block = wram_block\<rparr> m 0x10 v32
     = Inr (rawWrite32 c m 0x10 0x02000010 v32)
   \<and> mScriptMemoryAdapterRead8 \<lparr>core = c, block = wram_block\<rparr> m 0x10
     = Inr (rawRead8 c m 0x02000010 0)
   \<and> mScriptMemoryAdapterWrite8 \<lparr>core = log_core, block = wram_block\<rparr> [] 0x10 0xAA
     = Inr [(0x10, 0x02000010, 0xAA)]
   \<and> mScriptMemoryAdapterWrite8 \<lparr>core = log_core, block = wram_block\<rparr> [] 0x10 0xAA
     \<noteq> Inr (rawWrite8 log_core [] 0x02000010 0 0xAA)"
  by (simp add: mScriptMemoryAdapterWrite8_def mScriptMemoryAdapterWrite16_def
      mScriptMemoryAdapterWrite32_def mScriptMemoryAdapterRead8_def wram_translate log_core_def)

text \<open>
  C2, as the claim states it, fails: for the banked region with \<open>start = 0\<close>,
  \<open>end = 0x4000\<close>, \<open>segmentStart = 0x2000\<close>, the read at offset \<open>0x2000\<close> translates to
  the physical address \<open>0x2000\<close> in bank 1, not to \<open>0x4000\<close>.
\<close>

theorem banked_read_0x2000_not_0x4000:
  "CALCULATE_SEGMENT_ADDRESS bank_block (CALCULATE_SEGMENT_INFO bank_block) 0x2000
     = Inr (0x2000, 1)
   \<and> mScriptMemoryAdapterRead8 \<lparr>core = log_core, block = bank_block\<rparr> [] 0x2000
       = Inr (rawRead8 log_core [] 0x2000 1)
   \<and> mScriptMemoryAdapterRead8 \<lparr>core = log_core, block = bank_block\<rparr> [] 0x2000
       \<noteq> Inr (rawRead8 log_core [] 0x4000 1)"
  by (simp add: mScriptMemoryAdapterRead8_def bank_info CALCULATE_SEGMENT_ADDRESS_def
      bank_fields log_core_read8)

text \<open>
  C2, amended. For a banked region with \<open>start = 0\<close>, \<open>end = 0x4000\<close>,
  \<open>segmentStart = 0x2000\<close>, whatever its name and its machine: the segment size is
  \<open>0x2000\<close>; a read at offset \<open>0x2000\<close> (segment 1, segment address 0) reads the
  physical address \<open>0x2000\<close> with bank index 1; a read at offset \<open>0\<close> reads the physical
  address \<open>0\<close> with bank index 0.
\<close>

theorem banked_region_translation:
  "fst (CALCULATE_SEGMENT_INFO \<lparr>block_start = 0, block_end = 0x4000,
          block_segmentStart = 0x2000, block_internalName = nm\<rparr>) = 0x2000
   \<and> mScriptMemoryAdapterRead8 \<lparr>core = c, block = \<lparr>block_start = 0, block_end = 0x4000,
          block_segmentStart = 0x2000, block_internalName = nm\<rparr>\<rparr> m 0x2000
       = Inr (rawRead8 c m 0x2000 1)
   \<and> mScriptMemoryAdapterRead8 \<lparr>core = c, block = \<lparr>block_start = 0, block_end = 0x4000,
          block_segmentStart = 0x2000, block_internalName = nm\<rparr>\<rparr> m 0
       = Inr (rawRead8 c m 0 0)"
  by (simp add: mScriptMemoryAdapterRead8_def CALCULATE_SEGMENT_INFO_def
      CALCULATE_SEGMENT_ADDRESS_def)

text \<open>
  C3, as the claim states it, fails: the region \<open>wram\<close> has no segment start, and the
  offset \<open>0x40000\<close>, its size, translates to the physical address \<open>0x02000000\<close> with
  bank index 1, not to \<open>start + address\<close> with bank index 0.
\<close>

theorem unbanked_offset_past_size:
  "block_segmentStart wram_block = 0
   \<and> CALCULATE_SEGMENT_ADDRESS wram_block (CALCULATE_SEGMENT_INFO wram_block) 0x40000
       = Inr (0x02000000, 1)
   \<and> CALCULATE_SEGMENT_ADDRESS wram_block (CALCULATE_SEGMENT_INFO wram_block) 0x40000
       \<noteq> Inr (block_start wram_block + 0x40000, 0)"
  by (simp add: CALCULATE_SEGMENT_INFO_def CALCULATE_SEGMENT_ADDRESS_def wram_block_def)

text \<open>
  C3, amended. For every region whose descriptor has no segment start and every offset
  \<open>address\<close> smaller than the size \<open>end - start\<close> of the region, the translation is
  the offset plus the start of the region and the bank index is 0, for the reads of
  all three widths.
\<close>

theorem unbanked_translation_in_range:
  "block_segmentStart (block ad) = 0 \<Longrightarrow>
   address < block_end (block ad) - block_start (block ad) \<Longrightarrow>
     CALCULATE_SEGMENT_ADDRESS (block ad) (CALCULATE_SEGMENT_INFO (block ad)) address
       = Inr (block_start (block ad) + address, 0)
   \<and> mScriptMemoryAdapterRead8 ad m address
       = Inr (rawRead8 (core ad) m (block_start (block ad) + address) 0)
   \<and> mScriptMemoryAdapterRead16 ad m address
       = Inr (rawRead16 (core ad) m (block_start (block ad) + address) 0)
   \<and> mScriptMemoryAdapterRead32 ad m address
       = Inr (rawRead32 (core ad) m (block_start (block ad) + address) 0)"
  using unbanked_translate[of "block ad" address]
  by (simp add: mScriptMemoryAdapterRead8_def mScriptMemoryAdapterRead16_def
      mScriptMemoryAdapterRead32_def)

theorem unbanked_translation_in_range_witness:
  "block_segmentStart (block \<lparr>core = log_core, block = wram_block\<rparr>) = 0
   \<and> (0x3FFFF :: u32) < block_end wram_block - block_start wram_block
   \<and> CALCULATE_SEGMENT_ADDRESS wram_block (CALCULATE_SEGMENT_INFO wram_block) 0x3FFFF
       = Inr (0x0203FFFF, 0)
   \<and> mScriptMemoryAdapterRead8 \<lparr>core = log_core, block = wram_block\<rparr> [] 0x3FFFF
       = Inr (rawRead8 log_core [] 0x0203FFFF 0)"
  using unbanked_translation_in_range[of "\<lparr>core = log_core, block = wram_block\<rparr>" "0x3FFFF" "[]"]
  by (simp add: wram_block_def)

text \<open>
  C8. For every region, offset \<open>address\<close>, length \<open>n\<close> and index \<open>i < n\<close>: the range read
  returns a list of exactly \<open>n\<close> elements whose element \<open>i\<close> is the value of the
  single-byte read at offset \<open>address + i\<close>; where the segment size is 0 both fault in
  the same way.
\<close>

theorem readRange_nth_is_read8:
  "i < n \<Longrightarrow>
   (case mScriptMemoryAdapterReadRange ad m a n of
      Inl e \<Rightarrow> mScriptMemoryAdapterRead8 ad m (a + i) = Inl e
    | Inr xs \<Rightarrow> length xs = unat n \<and> mScriptMemoryAdapterRead8 ad m (a + i) = Inr (xs ! unat i))"
proof (cases "fst (CALCULATE_SEGMENT_INFO (block ad)) = 0")
  case True
  assume "i < n"
  then have "0 < n" by unat_arith
  then have r: "mScriptMemoryAdapterReadRange ad m a n = Inl DivisionByZero"
    using True by (simp add: mScriptMemoryAdapterReadRange_def loop_zero)
  have "mScriptMemoryAdapterRead8 ad m (a + i) = Inl DivisionByZero"
    using True seg_fault_iff[of "block ad" "CALCULATE_SEGMENT_INFO (block ad)" "a + i"]
    by (simp add: mScriptMemoryAdapterRead8_def)
  with r show ?thesis by simp
next
  case False
  assume lt: "i < n"
  have r: "mScriptMemoryAdapterReadRange ad m a n
     = Inr (map (\<lambda>k. rd8 ad m (CALCULATE_SEGMENT_INFO (block ad)) (a + of_nat k)) [0..<unat n])"
    using False by (simp add: mScriptMemoryAdapterReadRange_def loop_char)
  have u: "unat i < unat n" using lt by (simp add: word_less_nat_alt)
  have "\<not> isl (CALCULATE_SEGMENT_ADDRESS (block ad) (CALCULATE_SEGMENT_INFO (block ad)) (a + i))"
    using False by (simp add: seg_isl)
  then have "mScriptMemoryAdapterRead8 ad m (a + i)
      = Inr (rd8 ad m (CALCULATE_SEGMENT_INFO (block ad)) (a + i))"
    by (auto simp: mScriptMemoryAdapterRead8_def rd8_def split: sum.splits)
  then show ?thesis using r u by simp
qed

theorem readRange_nth_is_read8_witness:
  "(2 :: u32) < 3
   \<and> mScriptMemoryAdapterReadRange \<lparr>core = log_core, block = bank_block\<rparr> [] 0x1FFF 3
       = Inr [0x1FFF, 0x2001, 0x2002]
   \<and> mScriptMemoryAdapterRead8 \<lparr>core = log_core, block = bank_block\<rparr> [] (0x1FFF + 2)
       = Inr 0x2002"
proof -
  have r: "mScriptMemoryAdapterReadRange \<lparr>core = log_core, block = bank_block\<rparr> [] 0x1FFF 3
       = Inr [0x1FFF, 0x2001, 0x2002]"
    by (simp add: mScriptMemoryAdapterReadRange_def bank_info readRange_loop.simps
        CALCULATE_SEGMENT_ADDRESS_def bank_fields log_core_read8)
  have lt: "(2 :: u32) < 3" by simp
  show ?thesis
    using readRange_nth_is_read8[OF lt, of "\<lparr>core = log_core, block = bank_block\<rparr>" "[]" "0x1FFF"] lt
    by (simp add: r)
qed

text \<open>
  C10. Every operation of the region adapter divides by the segment size: each read
  and each write faults exactly when the segment size is 0, and the range read
  exactly when the segment size is 0 and the length is not 0 (with length 0 its loop
  never runs). For every descriptor with \<open>end > start\<close> whose prefix, if it has a
  segment start, is smaller than \<open>end - start\<close>, the segment size is greater than 0, so
  that no operation faults at any offset.
\<close>

theorem segment_division_safety:
  "(isl (mScriptMemoryAdapterRead8 ad m a) \<longleftrightarrow> fst (CALCULATE_SEGMENT_INFO (block ad)) = 0)
   \<and> (isl (mScriptMemoryAdapterRead16 ad m a) \<longleftrightarrow> fst (CALCULATE_SEGMENT_INFO (block ad)) = 0)
   \<and> (isl (mScriptMemoryAdapterRead32 ad m a) \<longleftrightarrow> fst (CALCULATE_SEGMENT_INFO (block ad)) = 0)
   \<and> (isl (mScriptMemoryAdapterWrite8 ad m a v8)
        \<longleftrightarrow> fst (CALCULATE_SEGMENT_INFO (block ad)) = 0)
   \<and> (isl (mScriptMemoryAdapterWrite16 ad m a v16)
        \<longleftrightarrow> fst (CALCULATE_SEGMENT_INFO (block ad)) = 0)
   \<and> (isl (mScriptMemoryAdapterWrite32 ad m a v32)
        \<longleftrightarrow> fst (CALCULATE_SEGMENT_INFO (block ad)) = 0)
   \<and> (isl (mScriptMemoryAdapterReadRange ad m a n)
        \<longleftrightarrow> fst (CALCULATE_SEGMENT_INFO (block ad)) = 0 \<and> n \<noteq> 0)
   \<and> (block_start (block ad) < block_end (block ad)
       \<and> (block_segmentStart (block ad) \<noteq> 0 \<longrightarrow>
            block_segmentStart (block ad) - block_start (block ad)
              < block_end (block ad) - block_start (block ad))
      \<longrightarrow> 0 < fst (CALCULATE_SEGMENT_INFO (block ad)))"
  using seg_size_pos[of "block ad"]
  by (simp only: read8_isl read16_isl read32_isl write8_isl write16_isl write32_isl range_isl)
    simp

theorem segment_division_safety_witness:
  "block_start bank_block < block_end bank_block
   \<and> block_segmentStart bank_block - block_start bank_block
        < block_end bank_block - block_start bank_block
   \<and> 0 < fst (CALCULATE_SEGMENT_INFO bank_block)
   \<and> mScriptMemoryAdapterRead8 \<lparr>core = log_core, block = bank_block\<rparr> [] 0x2005 = Inr 0x2006
   \<and> mScriptMemoryAdapterRead8 \<lparr>core = log_core, block = empty_block\<rparr> [] 0
       = Inl DivisionByZero
   \<and> mScriptMemoryAdapterReadRange \<lparr>core = log_core, block = empty_block\<rparr> [] 0 0 = Inr []"
proof -
  have pos: "0 < fst (CALCULATE_SEGMENT_INFO (block \<lparr>core = log_core, block = bank_block\<rparr>))"
    using segment_division_safety[of "\<lparr>core = log_core, block = bank_block\<rparr>"]
    by (simp add: bank_fields)
  have z: "fst (CALCULATE_SEGMENT_INFO empty_block) = 0"
    by (simp add: CALCULATE_SEGMENT_INFO_def empty_block_def)
  have e: "isl (mScriptMemoryAdapterRead8 \<lparr>core = log_core, block = empty_block\<rparr> [] 0)"
    using segment_division_safety[of "\<lparr>core = log_core, block = empty_block\<rparr>" "[]" 0] z
    by simp
  have "mScriptMemoryAdapterRead8 \<lparr>core = log_core, block = empty_block\<rparr> [] 0
      = Inl DivisionByZero"
    using e by (cases "mScriptMemoryAdapterRead8 \<lparr>core = log_core, block = empty_block\<rparr> [] 0")
      (auto intro: fault.exhaust)
  moreover have "mScriptMemoryAdapterRead8 \<lparr>core = log_core, block = bank_block\<rparr> [] 0x2005
      = Inr 0x2006"
    by (simp add: mScriptMemoryAdapterRead8_def bank_info CALCULATE_SEGMENT_ADDRESS_def
        bank_fields log_core_read8)
  moreover have "mScriptMemoryAdapterReadRange \<lparr>core = log_core, block = empty_block\<rparr> [] 0 0
      = Inr []"
    by (simp add: mScriptMemoryAdapterReadRange_def readRange_loop.simps)
  ultimately show ?thesis
    using pos by (simp add: bank_fields)
qed

section \<open>The engine registry\<close>

subsection \<open>The enumeration with a success flag is the scan that stops\<close>

lemma tryLoad_done:
  "info_success si \<Longrightarrow> fold (\<lambda>(key, value). seTryLoad key value) es (si, calls) = (si, calls)"
  by (induction es) (auto simp: seTryLoad_def)

lemma tryLoad_fold:
  "\<not> info_success si \<Longrightarrow> info_name si = name \<Longrightarrow> info_vf si = vf \<Longrightarrow>
   (case fold (\<lambda>(key, value). seTryLoad key value) es (si, calls) of
      (si', calls') \<Rightarrow> info_success si' = fst (offer_first name vf es)
         \<and> calls' = calls @ snd (offer_first name vf es))"
proof (induction es arbitrary: si calls)
  case Nil
  then show ?case by simp
next
  case (Cons a es)
  obtain key se where a: "a = (key, se)" by (cases a)
  show ?case
  proof (cases "isScript se name vf")
    case False
    then have s: "seTryLoad key se (si, calls) = (si, calls @ [IsScript key False])"
      using Cons.prems by (simp add: seTryLoad_def)
    show ?thesis
      using Cons.IH[OF Cons.prems, of "calls @ [IsScript key False]"] False
      by (simp add: a s split: prod.splits)
  next
    case True
    show ?thesis
    proof (cases "loadScript se name vf")
      case l: True
      have s: "seTryLoad key se (si, calls)
          = (si\<lparr>info_success := True\<rparr>, calls @ [IsScript key True, LoadScript key True])"
        using Cons.prems True l by (simp add: seTryLoad_def)
      show ?thesis using True l
        by (simp add: a s tryLoad_done)
    next
      case l: False
      have s: "seTryLoad key se (si, calls)
          = (si\<lparr>info_success := False\<rparr>, calls @ [IsScript key True, LoadScript key False])"
        using Cons.prems True l by (simp add: seTryLoad_def)
      have p: "\<not> info_success (si\<lparr>info_success := False\<rparr>)"
        "info_name (si\<lparr>info_success := False\<rparr>) = name"
        "info_vf (si\<lparr>info_success := False\<rparr>) = vf"
        using Cons.prems by simp_all
      show ?thesis
        using Cons.IH[OF p, of "calls @ [IsScript key True, LoadScript key False]"] True l
        by (simp add: a s split: prod.splits)
    qed
  qed
qed

lemma loadScript_offer:
  "VFileOpen name = Some vf \<Longrightarrow>
   mScriptBridgeLoadScript sb VFileOpen name
     = (fst (offer_first name vf (engines sb)), snd (offer_first name vf (engines sb)) @ [VFileClose vf])"
  using tryLoad_fold[of "\<lparr>info_name = name, info_vf = vf, info_success = False\<rparr>" name vf "engines sb" "[]"]
  by (simp add: mScriptBridgeLoadScript_def HashTableEnumerate_def split: prod.splits)

lemma offer_first_iff:
  "fst (offer_first name vf es) = (\<exists>(key, se) \<in> set es. isScript se name vf \<and> loadScript se name vf)"
  by (induction es) (auto split: prod.splits)

lemma offer_first_stop:
  "i < length (snd (offer_first name vf es)) \<Longrightarrow> snd (offer_first name vf es) ! i = LoadScript k True
    \<Longrightarrow> Suc i = length (snd (offer_first name vf es))"
proof (induction es arbitrary: i)
  case Nil
  then show ?case by simp
next
  case (Cons a es)
  obtain key se where a: "a = (key, se)" by (cases a)
  show ?case
  proof (cases "isScript se name vf")
    case False
    with Cons.prems a show ?thesis
      using Cons.IH[of "i - 1"] by (cases i) (auto split: prod.splits)
  next
    case True
    show ?thesis
    proof (cases "loadScript se name vf")
      case l: True
      with Cons.prems a True show ?thesis by (cases i) auto
    next
      case l: False
      with Cons.prems a True show ?thesis
        using Cons.IH[of "i - 2"]
        by (cases i; cases "i - 1") (auto split: prod.splits)
    qed
  qed
qed

lemma offer_first_load_after_identify:
  "i < length (snd (offer_first name vf es)) \<Longrightarrow> snd (offer_first name vf es) ! i = LoadScript k b
    \<Longrightarrow> 0 < i \<and> snd (offer_first name vf es) ! (i - 1) = IsScript k True"
proof (induction es arbitrary: i)
  case Nil
  then show ?case by simp
next
  case (Cons a es)
  obtain key se where a: "a = (key, se)" by (cases a)
  show ?case
  proof (cases "isScript se name vf")
    case False
    with Cons.prems a show ?thesis
      using Cons.IH[of "i - 1"] by (cases i) (auto split: prod.splits simp: nth_Cons')
  next
    case True
    show ?thesis
    proof (cases "loadScript se name vf")
      case l: True
      with Cons.prems a True show ?thesis by (cases i) auto
    next
      case l: False
      with Cons.prems a True show ?thesis
        using Cons.IH[of "i - 2"]
        by (cases i; cases "i - 1") (auto split: prod.splits simp: nth_Cons')
    qed
  qed
qed

lemma offer_first_no_close: "\<not> list_ex is_close (snd (offer_first name vf es))"
  by (induction es) (auto split: prod.splits if_splits)

lemma lookup_done:
  "symbol_success si \<Longrightarrow> fold (\<lambda>(key, value). seLookupSymbol key value) es (si, calls) = (si, calls)"
  by (induction es) (auto simp: seLookupSymbol_def)

lemma lookup_fold:
  "\<not> symbol_success si \<Longrightarrow> symbol_name si = name \<Longrightarrow>
   (case fold (\<lambda>(key, value). seLookupSymbol key value) es (si, calls) of
      (si', calls') \<Rightarrow>
         (symbol_success si', symbol_out si', calls')
           = (case query_first name (symbol_out si) es of (r, v, cs) \<Rightarrow> (r, v, calls @ cs)))"
proof (induction es arbitrary: si calls)
  case Nil
  then show ?case by simp
next
  case (Cons a es)
  obtain key se where a: "a = (key, se)" by (cases a)
  obtain r v where h: "lookupSymbol se name (symbol_out si) = (r, v)"
    by (cases "lookupSymbol se name (symbol_out si)")
  have s: "seLookupSymbol key se (si, calls)
      = (si\<lparr>symbol_out := v, symbol_success := r\<rparr>, calls @ [LookupSymbol key r v])"
    using Cons.prems h by (simp add: seLookupSymbol_def)
  show ?case
  proof (cases r)
    case True
    then show ?thesis using h by (simp add: a s lookup_done)
  next
    case False
    have p: "\<not> symbol_success (si\<lparr>symbol_out := v, symbol_success := r\<rparr>)"
      "symbol_name (si\<lparr>symbol_out := v, symbol_success := r\<rparr>) = name"
      using False Cons.prems by simp_all
    show ?thesis
      using Cons.IH[OF p, of "calls @ [LookupSymbol key r v]"] False h
      by (simp add: a s split: prod.splits)
  qed
qed

lemma lookupSymbol_query:
  "mScriptBridgeLookupSymbol sb name out = query_first name out (engines sb)"
  using lookup_fold[where si = "\<lparr>symbol_name = name, symbol_out = out, symbol_success = False\<rparr>"
      and name = name and es = "engines sb" and calls = "[]"]
  by (simp add: mScriptBridgeLookupSymbol_def HashTableEnumerate_def split: prod.splits)

lemma query_first_iff:
  "fst (query_first name out es) = (\<exists>k v. LookupSymbol k True v \<in> set (snd (snd (query_first name out es))))"
proof (induction es arbitrary: out)
  case Nil
  then show ?case by simp
next
  case (Cons a es)
  obtain key se where a: "a = (key, se)" by (cases a)
  obtain r0 v0 where h: "lookupSymbol se name out = (r0, v0)"
    by (cases "lookupSymbol se name out")
  show ?case
  proof (cases r0)
    case True
    then show ?thesis using h by (auto simp: a)
  next
    case False
    obtain r1 v1 cs where q: "query_first name v0 es = (r1, v1, cs)"
      by (cases "query_first name v0 es")
    show ?thesis using Cons.IH[of v0] False h q by (simp add: a)
  qed
qed

lemma query_first_stop:
  "query_first name out es = (r, v', calls) \<Longrightarrow> i < length calls \<Longrightarrow> calls ! i = LookupSymbol k True v
    \<Longrightarrow> Suc i = length calls \<and> v' = v"
proof (induction es arbitrary: i out calls r v')
  case Nil
  then show ?case by simp
next
  case (Cons a es)
  obtain key se where a: "a = (key, se)" by (cases a)
  obtain r0 v0 where h: "lookupSymbol se name out = (r0, v0)"
    by (cases "lookupSymbol se name out")
  show ?case
  proof (cases r0)
    case True
    with Cons.prems a h show ?thesis by (cases i) auto
  next
    case False
    obtain r1 v1 cs where q: "query_first name v0 es = (r1, v1, cs)"
      by (cases "query_first name v0 es")
    with Cons.prems a h False have c: "calls = LookupSymbol key False v0 # cs" "v' = v1" by auto
    with Cons.prems obtain j where j: "i = Suc j" by (cases i) auto
    show ?thesis using Cons.IH[OF q, of j] Cons.prems c j by auto
  qed
qed

lemma query_first_all:
  "\<not> fst (query_first name out es) \<Longrightarrow> length (snd (snd (query_first name out es))) = length es"
proof (induction es arbitrary: out)
  case Nil
  then show ?case by simp
next
  case (Cons a es)
  obtain key se where a: "a = (key, se)" by (cases a)
  obtain r0 v0 where h: "lookupSymbol se name out = (r0, v0)"
    by (cases "lookupSymbol se name out")
  show ?case
  proof (cases r0)
    case True
    then show ?thesis using h Cons.prems by (simp add: a)
  next
    case False
    obtain r1 v1 cs where q: "query_first name v0 es = (r1, v1, cs)"
      by (cases "query_first name v0 es")
    show ?thesis using Cons.IH[of v0] Cons.prems False h q by (simp add: a)
  qed
qed

lemma query_first_keys:
  "map call_key (snd (snd (query_first name out es)))
     = take (length (snd (snd (query_first name out es)))) (map fst es)"
proof (induction es arbitrary: out)
  case Nil
  then show ?case by simp
next
  case (Cons a es)
  obtain key se where a: "a = (key, se)" by (cases a)
  obtain r0 v0 where h: "lookupSymbol se name out = (r0, v0)"
    by (cases "lookupSymbol se name out")
  show ?case
  proof (cases r0)
    case True
    then show ?thesis using h by (simp add: a)
  next
    case False
    obtain r1 v1 cs where q: "query_first name v0 es = (r1, v1, cs)"
      by (cases "query_first name v0 es")
    show ?thesis using Cons.IH[of v0] False h q by (simp add: a)
  qed
qed

subsection \<open>The claims about the registry\<close>

text \<open>
  C5. For every path: when the resource cannot be opened, loading returns failure and
  invokes no hook of any engine; when it is opened, the calls made end with the
  closing of its handle, which is closed once, whether the load succeeds or fails.
\<close>

theorem loadScript_open_failure_and_close:
  "(VFileOpen name = None \<longrightarrow> mScriptBridgeLoadScript sb VFileOpen name = (False, []))
   \<and> (\<forall>vf. VFileOpen name = Some vf \<longrightarrow>
        (\<exists>calls. snd (mScriptBridgeLoadScript sb VFileOpen name) = calls @ [VFileClose vf]
           \<and> \<not> list_ex is_close calls))"
  by (auto simp: loadScript_offer offer_first_no_close) (simp add: mScriptBridgeLoadScript_def)

theorem loadScript_open_failure_and_close_witness:
  "mScriptBridgeLoadScript example_bridge example_vfs ''missing.lua'' = (False, [])
   \<and> mScriptBridgeLoadScript example_bridge example_vfs ''a.lua''
       = (True, [IsScript ''py'' False, IsScript ''lua'' True, LoadScript ''lua'' True, VFileClose 3])
   \<and> mScriptBridgeLoadScript py_bridge example_vfs ''a.lua''
       = (False, [IsScript ''py'' False, VFileClose 3])"
  using loadScript_open_failure_and_close[of example_vfs "''missing.lua''" example_bridge]
    loadScript_open_failure_and_close[of example_vfs "''a.lua''" example_bridge]
  by (simp add: mScriptBridgeLoadScript_def HashTableEnumerate_def example_bridge_def
      example_vfs_def seTryLoad_def py_engine_def lua_engine_def js_engine_def py_bridge_def)

text \<open>
  C6. For every table of engines and every script that can be opened: loading is the
  scan that stops at the first engine that both identifies the script and loads it;
  it returns true exactly when some installed engine does both; after a successful
  load the next and last action is closing the file, so no further engine is offered
  the script; an engine is asked to load only directly after it answered \<open>isScript\<close>
  with true; and the result is the same for every order in which the same engines are
  enumerated.
\<close>

theorem loadScript_first_accepting_engine:
  "VFileOpen name = Some vf \<Longrightarrow>
     mScriptBridgeLoadScript sb VFileOpen name
       = (fst (offer_first name vf (engines sb)),
          snd (offer_first name vf (engines sb)) @ [VFileClose vf])
   \<and> (fst (mScriptBridgeLoadScript sb VFileOpen name)
        \<longleftrightarrow> (\<exists>(key, se) \<in> set (engines sb). isScript se name vf \<and> loadScript se name vf))
   \<and> (\<forall>i k. i < length (snd (mScriptBridgeLoadScript sb VFileOpen name))
          \<and> snd (mScriptBridgeLoadScript sb VFileOpen name) ! i = LoadScript k True
        \<longrightarrow> snd (mScriptBridgeLoadScript sb VFileOpen name) ! Suc i = VFileClose vf)
   \<and> (\<forall>i k b. i < length (snd (mScriptBridgeLoadScript sb VFileOpen name))
          \<and> snd (mScriptBridgeLoadScript sb VFileOpen name) ! i = LoadScript k b
        \<longrightarrow> 0 < i \<and> snd (mScriptBridgeLoadScript sb VFileOpen name) ! (i - 1) = IsScript k True)
   \<and> (\<forall>sb'. set (engines sb') = set (engines sb)
        \<longrightarrow> fst (mScriptBridgeLoadScript sb' VFileOpen name)
            = fst (mScriptBridgeLoadScript sb VFileOpen name))"
proof -
  assume o: "VFileOpen name = Some vf"
  let ?cs = "snd (offer_first name vf (engines sb))"
  have e: "mScriptBridgeLoadScript sb VFileOpen name
       = (fst (offer_first name vf (engines sb)), ?cs @ [VFileClose vf])"
    using o by (rule loadScript_offer)
  have iff: "fst (mScriptBridgeLoadScript sb VFileOpen name)
        \<longleftrightarrow> (\<exists>(key, se) \<in> set (engines sb). isScript se name vf \<and> loadScript se name vf)"
    by (simp add: e offer_first_iff)
  have stop: "\<forall>i k. i < length (?cs @ [VFileClose vf]) \<and> (?cs @ [VFileClose vf]) ! i = LoadScript k True
        \<longrightarrow> (?cs @ [VFileClose vf]) ! Suc i = VFileClose vf"
  proof (intro allI impI)
    fix i k
    assume h: "i < length (?cs @ [VFileClose vf]) \<and> (?cs @ [VFileClose vf]) ! i = LoadScript k True"
    then have lt: "i < length ?cs"
      by (cases "i = length ?cs") auto
    with h have "?cs ! i = LoadScript k True" by (simp add: nth_append)
    with lt have "Suc i = length ?cs" by (rule offer_first_stop)
    then show "(?cs @ [VFileClose vf]) ! Suc i = VFileClose vf" by (simp add: nth_append)
  qed
  have pre: "\<forall>i k b. i < length (?cs @ [VFileClose vf]) \<and> (?cs @ [VFileClose vf]) ! i = LoadScript k b
        \<longrightarrow> 0 < i \<and> (?cs @ [VFileClose vf]) ! (i - 1) = IsScript k True"
  proof (intro allI impI)
    fix i k b
    assume h: "i < length (?cs @ [VFileClose vf]) \<and> (?cs @ [VFileClose vf]) ! i = LoadScript k b"
    then have lt: "i < length ?cs"
      by (cases "i = length ?cs") auto
    with h have "?cs ! i = LoadScript k b" by (simp add: nth_append)
    with lt have "0 < i \<and> ?cs ! (i - 1) = IsScript k True"
      by (rule offer_first_load_after_identify)
    with lt show "0 < i \<and> (?cs @ [VFileClose vf]) ! (i - 1) = IsScript k True"
      by (simp add: nth_append)
  qed
  have ord: "\<forall>sb'. set (engines sb') = set (engines sb)
        \<longrightarrow> fst (mScriptBridgeLoadScript sb' VFileOpen name)
            = fst (mScriptBridgeLoadScript sb VFileOpen name)"
    using o by (simp add: loadScript_offer offer_first_iff)
  from e iff stop pre ord show ?thesis by simp
qed

theorem loadScript_first_accepting_engine_witness:
  "example_vfs ''a.lua'' = Some 3
   \<and> mScriptBridgeLoadScript two_bridge example_vfs ''a.lua''
       = (True, [IsScript ''py'' False, IsScript ''lua'' True, LoadScript ''lua'' True, VFileClose 3])
   \<and> mScriptBridgeLoadScript swapped_bridge example_vfs ''a.lua''
       = (True, [IsScript ''lua'' True, LoadScript ''lua'' True, VFileClose 3])
   \<and> mScriptBridgeLoadScript example_bridge example_vfs ''a.lua''
       = (True, [IsScript ''py'' False, IsScript ''lua'' True, LoadScript ''lua'' True, VFileClose 3])"
  using loadScript_first_accepting_engine[of example_vfs "''a.lua''" 3 two_bridge]
  by (simp add: mScriptBridgeLoadScript_def HashTableEnumerate_def example_bridge_def
      example_vfs_def seTryLoad_def py_engine_def lua_engine_def js_engine_def
      two_bridge_def swapped_bridge_def)

text \<open>
  C7. For every table of engines and every symbol name: a successful \<open>lookupSymbol\<close>
  call is the last hook call made, and the value it left in \<open>out\<close> is the value
  returned through \<open>out\<close>; the result is true exactly when some call succeeded; the
  engines are asked in the order of the enumeration, each at most once, and all of
  them when none succeeds.
\<close>

theorem lookupSymbol_first_success:
  "mScriptBridgeLookupSymbol sb name out = (r, v, calls) \<Longrightarrow>
     (r \<longleftrightarrow> (\<exists>k w. LookupSymbol k True w \<in> set calls))
   \<and> (\<forall>i k w. i < length calls \<and> calls ! i = LookupSymbol k True w
        \<longrightarrow> Suc i = length calls \<and> v = w)
   \<and> map call_key calls = take (length calls) (map fst (engines sb))
   \<and> (\<not> r \<longrightarrow> length calls = length (engines sb))
   \<and> query_first name out (engines sb) = (r, v, calls)"
proof -
  assume a: "mScriptBridgeLookupSymbol sb name out = (r, v, calls)"
  then have q: "query_first name out (engines sb) = (r, v, calls)"
    by (simp add: lookupSymbol_query)
  have iff: "r \<longleftrightarrow> (\<exists>k w. LookupSymbol k True w \<in> set calls)"
    using query_first_iff[of name out "engines sb"] q by simp
  have stop: "\<forall>i k w. i < length calls \<and> calls ! i = LookupSymbol k True w
        \<longrightarrow> Suc i = length calls \<and> v = w"
    using query_first_stop[OF q] by blast
  have keys: "map call_key calls = take (length calls) (map fst (engines sb))"
    using query_first_keys[of name out "engines sb"] q by simp
  have all: "\<not> r \<longrightarrow> length calls = length (engines sb)"
    using query_first_all[of name out "engines sb"] q by simp
  from iff stop keys all q show ?thesis by simp
qed

theorem lookupSymbol_first_success_witness:
  "mScriptBridgeLookupSymbol example_bridge ''x'' 0
     = (True, 42, [LookupSymbol ''py'' False 0, LookupSymbol ''lua'' True 42])
   \<and> mScriptBridgeLookupSymbol two_bridge ''y'' 5
     = (False, 5, [LookupSymbol ''py'' False 5, LookupSymbol ''lua'' False 5])"
  using lookupSymbol_first_success[of example_bridge "''x''" 0 True 42 "[LookupSymbol ''py'' False 0, LookupSymbol ''lua'' True 42]"]
  by (simp add: mScriptBridgeLookupSymbol_def HashTableEnumerate_def example_bridge_def
      seLookupSymbol_def py_engine_def lua_engine_def js_engine_def two_bridge_def)

section \<open>The memory map\<close>

subsection \<open>Clearing and rebuilding, step by step\<close>

lemma table_insert_keys: "fst ` set (mScriptTableInsert t key v) = insert key (fst ` set t)"
  by (induction t key v rule: mScriptTableInsert.induct) auto

lemma table_insert_entries: "set (mScriptTableInsert t key v) \<subseteq> insert (key, v) (set t)"
  by (induction t key v rule: mScriptTableInsert.induct) auto

lemma clear_fold_weakrefs:
  "weakrefs (fold (\<lambda>(key, weakref) ctx. mScriptContextClearWeakref ctx weakref) mem ctx) w
     = (if w \<in> snd ` set mem then None else weakrefs ctx w)"
  by (induction mem arbitrary: ctx) (auto simp: mScriptContextClearWeakref_def)

lemma clear_fold_next:
  "nextWeakref (fold (\<lambda>(key, weakref) ctx. mScriptContextClearWeakref ctx weakref) mem ctx)
     = nextWeakref ctx"
  by (induction mem arbitrary: ctx) (auto simp: mScriptContextClearWeakref_def)

lemma rebuild_step_eq:
  "rebuild_step b (ctx, adapter) =
     (ctx\<lparr>weakrefs := (weakrefs ctx)(nextWeakref ctx \<mapsto>
          MemoryAdapterValue \<lparr>core = adapter_core adapter, block = b\<rparr>),
        nextWeakref := Suc (nextWeakref ctx)\<rparr>,
      adapter\<lparr>adapter_memory :=
        mScriptTableInsert (adapter_memory adapter) (block_internalName b) (nextWeakref ctx)\<rparr>)"
  by (simp add: rebuild_step_def mScriptContextMakeWeakref_def Let_def)

lemma build_fold:
  "fold rebuild_step blocks (ctx, adapter) = (ctx', adapter') \<Longrightarrow>
     nextWeakref ctx' = nextWeakref ctx + length blocks
   \<and> adapter_core adapter' = adapter_core adapter
   \<and> (\<forall>w < nextWeakref ctx. weakrefs ctx' w = weakrefs ctx w)
   \<and> fst ` set (adapter_memory adapter')
        = fst ` set (adapter_memory adapter) \<union> block_internalName ` set blocks
   \<and> (\<forall>(key, w) \<in> set (adapter_memory adapter').
         (key, w) \<in> set (adapter_memory adapter)
       \<or> (nextWeakref ctx \<le> w \<and> w < nextWeakref ctx'
          \<and> (\<exists>b \<in> set blocks. block_internalName b = key
                \<and> weakrefs ctx' w
                    = Some (MemoryAdapterValue \<lparr>core = adapter_core adapter, block = b\<rparr>))))"
proof (induction blocks arbitrary: ctx adapter)
  case Nil
  then show ?case by auto
next
  case (Cons b blocks)
  let ?c1 = "ctx\<lparr>weakrefs := (weakrefs ctx)(nextWeakref ctx \<mapsto>
          MemoryAdapterValue \<lparr>core = adapter_core adapter, block = b\<rparr>),
        nextWeakref := Suc (nextWeakref ctx)\<rparr>"
  let ?a1 = "adapter\<lparr>adapter_memory :=
        mScriptTableInsert (adapter_memory adapter) (block_internalName b) (nextWeakref ctx)\<rparr>"
  have f: "fold rebuild_step blocks (?c1, ?a1) = (ctx', adapter')"
    using Cons.prems by (simp add: rebuild_step_eq)
  note ih = Cons.IH[OF f]
  have n: "nextWeakref ctx' = nextWeakref ctx + length (b # blocks)"
    using ih by simp
  have c: "adapter_core adapter' = adapter_core adapter"
    using ih by simp
  have old: "\<forall>w < nextWeakref ctx. weakrefs ctx' w = weakrefs ctx w"
    using ih by simp
  have fresh: "weakrefs ctx' (nextWeakref ctx)
      = Some (MemoryAdapterValue \<lparr>core = adapter_core adapter, block = b\<rparr>)"
    using ih by simp
  have keys: "fst ` set (adapter_memory adapter')
        = fst ` set (adapter_memory adapter) \<union> block_internalName ` set (b # blocks)"
    using ih by (simp add: table_insert_keys)
  have ent: "\<forall>(key, w) \<in> set (adapter_memory adapter').
         (key, w) \<in> set (adapter_memory adapter)
       \<or> (nextWeakref ctx \<le> w \<and> w < nextWeakref ctx'
          \<and> (\<exists>b' \<in> set (b # blocks). block_internalName b' = key
                \<and> weakrefs ctx' w
                    = Some (MemoryAdapterValue \<lparr>core = adapter_core adapter, block = b'\<rparr>)))"
  proof (clarify)
    fix key w
    assume m: "(key, w) \<in> set (adapter_memory adapter')"
      and nn: "\<not> (nextWeakref ctx \<le> w \<and> w < nextWeakref ctx'
          \<and> (\<exists>b' \<in> set (b # blocks). block_internalName b' = key
                \<and> weakrefs ctx' w
                    = Some (MemoryAdapterValue \<lparr>core = adapter_core adapter, block = b'\<rparr>)))"
    from ih m have "(key, w) \<in> set (adapter_memory ?a1)
       \<or> (nextWeakref ?c1 \<le> w \<and> w < nextWeakref ctx'
          \<and> (\<exists>b' \<in> set blocks. block_internalName b' = key
                \<and> weakrefs ctx' w
                    = Some (MemoryAdapterValue \<lparr>core = adapter_core ?a1, block = b'\<rparr>)))"
      by blast
    with nn have "(key, w) \<in> set (adapter_memory ?a1)" by auto
    then have "(key, w) = (block_internalName b, nextWeakref ctx) \<or> (key, w) \<in> set (adapter_memory adapter)"
      using table_insert_entries[of "adapter_memory adapter" "block_internalName b" "nextWeakref ctx"]
      by auto
    with nn fresh n show "(key, w) \<in> set (adapter_memory adapter)" by auto
  qed
  from n c old keys ent show ?case by blast
qed

lemma example_rebuild:
  "rebuildMemoryMap example_context example_adapter []
     = (\<lparr>weakrefs = [0 \<mapsto> OtherValue ''emu'',
            2 \<mapsto> MemoryAdapterValue \<lparr>core = log_core, block = wram_block\<rparr>,
            3 \<mapsto> MemoryAdapterValue \<lparr>core = log_core, block = bank_block\<rparr>],
          nextWeakref = 4\<rparr>,
        \<lparr>adapter_core = log_core, adapter_memory = [(''wram'', 2), (''cart0'', 3)]\<rparr>)"
proof -
  have l: "listMemoryBlocks log_core [] = [wram_block, bank_block]"
    by (simp add: log_core_def)
  have k: "block_internalName wram_block = ''wram''" "block_internalName bank_block = ''cart0''"
    by (simp_all add: wram_block_def bank_block_def)
  show ?thesis
    by (auto simp add: rebuildMemoryMap_def clearMemoryMap_def example_context_def example_adapter_def
        l k rebuild_step_eq mScriptContextClearWeakref_def fun_eq_iff)
qed

subsection \<open>The claim about rebuilding\<close>

text \<open>
  C4. Rebuilding the memory map is clearing it with invalidation, then one step per
  descriptor of the machine's current block list. Every weak reference that the
  memory map holds and that was issued before the rebuild resolves to absent after
  it; a weak reference issued before that the map does not hold resolves as it did.
  One weak reference is issued per descriptor; the keys of the new map are the
  internal names of the descriptors; and every entry of the new map is a weak
  reference issued during the rebuild that resolves to a fresh adapter of a
  descriptor with that name on the same machine. So a handle taken from the map
  before the rebuild is absent afterwards although its name may be a key of the new
  map, as for \<open>wram\<close> in the example that follows the theorem.
\<close>

theorem rebuildMemoryMap_invalidates_old_weakrefs:
  "rebuildMemoryMap ctx adapter m = (ctx', adapter') \<Longrightarrow>
     (\<forall>(key, w) \<in> set (adapter_memory adapter).
        w < nextWeakref ctx \<longrightarrow> mScriptContextAccessWeakref ctx' w = None)
   \<and> (\<forall>w < nextWeakref ctx. w \<notin> snd ` set (adapter_memory adapter) \<longrightarrow>
        mScriptContextAccessWeakref ctx' w = mScriptContextAccessWeakref ctx w)
   \<and> nextWeakref ctx' = nextWeakref ctx + length (listMemoryBlocks (adapter_core adapter) m)
   \<and> fst ` set (adapter_memory adapter')
        = block_internalName ` set (listMemoryBlocks (adapter_core adapter) m)
   \<and> (\<forall>(key, w) \<in> set (adapter_memory adapter').
         nextWeakref ctx \<le> w \<and> w < nextWeakref ctx'
       \<and> (\<exists>b \<in> set (listMemoryBlocks (adapter_core adapter) m).
             block_internalName b = key
           \<and> mScriptContextAccessWeakref ctx' w
               = Some (MemoryAdapterValue \<lparr>core = adapter_core adapter, block = b\<rparr>)))
   \<and> rebuildMemoryMap ctx adapter m
        = fold rebuild_step (listMemoryBlocks (adapter_core adapter) m)
            (clearMemoryMap ctx adapter True)"
proof -
  assume a: "rebuildMemoryMap ctx adapter m = (ctx', adapter')"
  let ?c0 = "fold (\<lambda>(key, weakref) c. mScriptContextClearWeakref c weakref)
      (adapter_memory adapter) ctx"
  let ?a0 = "adapter\<lparr>adapter_memory := []\<rparr>"
  let ?blocks = "listMemoryBlocks (adapter_core adapter) m"
  have cl: "clearMemoryMap ctx adapter True = (?c0, ?a0)"
    by (simp add: clearMemoryMap_def)
  have f: "fold rebuild_step ?blocks (?c0, ?a0) = (ctx', adapter')"
    using a by (simp add: rebuildMemoryMap_def cl)
  note b = build_fold[OF f]
  have n0: "nextWeakref ?c0 = nextWeakref ctx"
    by (rule clear_fold_next)
  have old: "\<forall>w < nextWeakref ctx.
        mScriptContextAccessWeakref ctx' w
          = (if w \<in> snd ` set (adapter_memory adapter) then None
             else mScriptContextAccessWeakref ctx w)"
    using b n0 by (simp add: mScriptContextAccessWeakref_def clear_fold_weakrefs)
  have gone: "\<forall>(key, w) \<in> set (adapter_memory adapter).
        w < nextWeakref ctx \<longrightarrow> mScriptContextAccessWeakref ctx' w = None"
    using old by force
  have kept: "\<forall>w < nextWeakref ctx. w \<notin> snd ` set (adapter_memory adapter) \<longrightarrow>
        mScriptContextAccessWeakref ctx' w = mScriptContextAccessWeakref ctx w"
    using old by simp
  have n: "nextWeakref ctx' = nextWeakref ctx + length ?blocks"
    using b n0 by simp
  have keys: "fst ` set (adapter_memory adapter') = block_internalName ` set ?blocks"
    using b by simp
  have ent: "\<forall>(key, w) \<in> set (adapter_memory adapter').
         nextWeakref ctx \<le> w \<and> w < nextWeakref ctx'
       \<and> (\<exists>b \<in> set ?blocks. block_internalName b = key
           \<and> mScriptContextAccessWeakref ctx' w
               = Some (MemoryAdapterValue \<lparr>core = adapter_core adapter, block = b\<rparr>))"
    using b n0 n by (auto simp: mScriptContextAccessWeakref_def)
  have eq: "rebuildMemoryMap ctx adapter m = fold rebuild_step ?blocks (clearMemoryMap ctx adapter True)"
    by (simp add: rebuildMemoryMap_def cl)
  from gone kept n keys ent eq show ?thesis by simp
qed

theorem rebuildMemoryMap_invalidates_old_weakrefs_witness:
  "mScriptContextAccessWeakref example_context 1
      = Some (MemoryAdapterValue \<lparr>core = log_core, block = wram_block\<rparr>)
   \<and> map_of (adapter_memory example_adapter) ''wram'' = Some 1
   \<and> mScriptContextAccessWeakref (fst (rebuildMemoryMap example_context example_adapter [])) 1 = None
   \<and> map_of (adapter_memory (snd (rebuildMemoryMap example_context example_adapter []))) ''wram'' = Some 2
   \<and> mScriptContextAccessWeakref (fst (rebuildMemoryMap example_context example_adapter [])) 2
      = Some (MemoryAdapterValue \<lparr>core = log_core, block = wram_block\<rparr>)
   \<and> mScriptContextAccessWeakref (fst (rebuildMemoryMap example_context example_adapter [])) 0
      = Some (OtherValue ''emu'')"
proof -
  let ?C = "\<lparr>weakrefs = [0 \<mapsto> OtherValue ''emu'',
            2 \<mapsto> MemoryAdapterValue \<lparr>core = log_core, block = wram_block\<rparr>,
            3 \<mapsto> MemoryAdapterValue \<lparr>core = log_core, block = bank_block\<rparr>],
          nextWeakref = 4\<rparr>"
  let ?A = "\<lparr>adapter_core = log_core, adapter_memory = [(''wram'', 2), (''cart0'', 3)]\<rparr>"
  have p: "rebuildMemoryMap example_context example_adapter [] = (?C, ?A)"
    by (rule example_rebuild)
  have old: "\<forall>(key, w) \<in> set (adapter_memory example_adapter).
        w < nextWeakref example_context \<longrightarrow> mScriptContextAccessWeakref ?C w = None"
    using rebuildMemoryMap_invalidates_old_weakrefs[OF p] by (rule conjunct1)
  have frame: "\<forall>w < nextWeakref example_context.
        w \<notin> snd ` set (adapter_memory example_adapter) \<longrightarrow>
        mScriptContextAccessWeakref ?C w = mScriptContextAccessWeakref example_context w"
    using rebuildMemoryMap_invalidates_old_weakrefs[OF p] by (rule conjunct2[THEN conjunct1])
  have "1 < nextWeakref example_context"
    by (simp add: example_context_def)
  with old have gone: "mScriptContextAccessWeakref ?C 1 = None"
    by (simp add: example_adapter_def)
  have "0 < nextWeakref example_context"
    by (simp add: example_context_def)
  with frame have kept:
    "mScriptContextAccessWeakref ?C 0 = mScriptContextAccessWeakref example_context 0"
    by (simp add: example_adapter_def)
  show ?thesis
    using gone kept
    by (simp add: p) (simp add: example_context_def example_adapter_def mScriptContextAccessWeakref_def)
qed

section \<open>The savestate defaults\<close>

text \<open>
  C9. Called with a slot and no flags, \<open>saveStateSlot\<close> calls \<open>mCoreSaveState\<close> with the
  flags \<open>SAVESTATE_ALL\<close> and \<open>loadStateSlot\<close> calls \<open>mCoreLoadState\<close> with the flags
  \<open>SAVESTATE_ALL & ~SAVESTATE_SAVEDATA\<close>: no bit of the save-data section is set in
  them, and together with the save-data bits of \<open>SAVESTATE_ALL\<close> they are all of
  \<open>SAVESTATE_ALL\<close>. Flags that the caller gives are passed as they are.
\<close>

theorem stateSlot_default_flags:
  "saveStateSlot SAVESTATE_ALL mCoreSaveState m [slot] = Some (mCoreSaveState m slot SAVESTATE_ALL)
   \<and> loadStateSlot SAVESTATE_ALL SAVESTATE_SAVEDATA mCoreLoadState m [slot]
       = Some (mCoreLoadState m slot (SAVESTATE_ALL AND NOT SAVESTATE_SAVEDATA))
   \<and> (SAVESTATE_ALL AND NOT SAVESTATE_SAVEDATA) AND SAVESTATE_SAVEDATA = 0
   \<and> (SAVESTATE_ALL AND NOT SAVESTATE_SAVEDATA) OR (SAVESTATE_ALL AND SAVESTATE_SAVEDATA)
       = SAVESTATE_ALL
   \<and> saveStateSlot SAVESTATE_ALL mCoreSaveState m [slot, flags] = Some (mCoreSaveState m slot flags)
   \<and> loadStateSlot SAVESTATE_ALL SAVESTATE_SAVEDATA mCoreLoadState m [slot, flags]
       = Some (mCoreLoadState m slot flags)"
proof -
  have a: "(SAVESTATE_ALL AND NOT SAVESTATE_SAVEDATA) AND SAVESTATE_SAVEDATA = 0"
    by (simp add: bit_eq_iff bit_and_iff bit_not_iff)
  have b: "(SAVESTATE_ALL AND NOT SAVESTATE_SAVEDATA) OR (SAVESTATE_ALL AND SAVESTATE_SAVEDATA)
       = SAVESTATE_ALL"
    by (auto simp: bit_eq_iff bit_and_iff bit_not_iff bit_or_iff dest: bit_imp_le_length)
  show ?thesis
    by (simp add: a b saveStateSlot_def loadStateSlot_def saveStateSlot_defaults_def
        loadStateSlot_defaults_def)
qed

end
